theory Spec2Isabelle
  imports Main
begin

section \<open>Data model\<close>

text \<open>
  The message board agent (the storage-backed revision of \<^verbatim>\<open>MessageBoardAgent\<close>) keeps,
  per domain, an index file plus one file per post, and an in-memory hash chain of the
  posts accepted since the last flush.

  JavaScript numbers that hold ids, counters and timestamps are modelled as \<open>nat\<close>
  (exact below \<open>2^53\<close>); strings as \<open>string\<close>; \<open>null\<close>/\<open>undefined\<close> as \<open>None\<close>.
\<close>

type_synonym domain = string
type_synonym address = string

record comment =
  c_id :: nat
  c_text :: string
  c_author :: address
  c_authorName :: "string option"
  c_timestamp :: nat

record post =
  p_id :: nat
  p_text :: string
  p_image :: "string option"
  p_author :: address
  p_authorName :: "string option"
  p_timestamp :: nat
  p_comments :: "comment list"
  p_channel :: "string option"
  p_editedAt :: "nat option"

text \<open>
  \<^verbatim>\<open>crypto.createHash('sha256')\<close> is a library primitive. Digests are modelled
  symbolically, as terms that record what was hashed, so that two digests are equal
  exactly when their inputs are (the usual perfect-hashing idealisation):
  \<^item> \<open>Genesis\<close> is the constant of sixty-four zeros the constructor stores in \<^verbatim>\<open>this.lastHash\<close>;
  \<^item> \<open>Sha256Post p h\<close> is the digest of \<^verbatim>\<open>JSON.stringify({...p, previousHash: h})\<close>;
  \<^item> \<open>Sha256Hex h\<close> is the digest of the hex string \<open>h\<close>.
\<close>

datatype digest = Genesis | Sha256Post post digest | Sha256Hex digest

record ipfsResult =
  r_hash :: string
  r_url :: string

record chainedPost =
  cp_post :: post
  hash :: digest
  previousHash :: digest
  chainIndex :: nat
  userSignature :: "string option"
  ipfsHash :: "string option"
  ipfsUrl :: "string option"

text \<open>The placeholder server signature: the digest of the signed entry and \<^verbatim>\<open>'0x...'\<close>.\<close>

datatype entryDigest = Sha256Entry chainedPost

record serverSignature =
  ss_hash :: entryDigest
  ss_signature :: string

record dataWallet =
  dw_data :: "nat \<times> string \<times> string option \<times> nat"
  dw_author :: "address \<times> string option \<times> string"
  dw_server :: "string \<times> string \<times> serverSignature option"
  dw_chain :: "digest \<times> digest \<times> nat"
  dw_timestamp :: nat

record summaryEntry =
  se_id :: nat
  se_hash :: digest
  se_ipfsHash :: "string option"
  se_author :: address
  se_timestamp :: nat

record batchSummary =
  bs_posts :: "summaryEntry list"
  bs_chainRoot :: digest
  bs_count :: nat
  bs_timestamp :: nat

datatype payload = WalletPayload dataWallet | SummaryPayload batchSummary

text \<open>What the content store answers to one \<^verbatim>\<open>fetch(.../add)\<close>.\<close>

datatype ipfsReply = FetchThrows | HttpNotOk nat | HttpOk string

record domainState =
  postChain :: "chainedPost list"
  lastHash :: digest

record batchData =
  bd_chain :: "chainedPost list"
  bd_lastHash :: digest
  bd_lastFlush :: nat

text \<open>
  The surroundings of one call: the root configuration's \<^verbatim>\<open>ipfs\<close> section, the content
  store's answers, the server identity of the host, the per-domain flush threshold
  (\<^verbatim>\<open>config.data.messageBoard.batchThreshold\<close>) and the clock.
\<close>

record env =
  ipfs_url :: "string option"
  ipfs_gateway :: string
  ipfs_fetch :: "payload \<Rightarrow> ipfsReply"
  wallet_address :: "string option"
  domainName :: "string option"
  batchThreshold :: "domain \<Rightarrow> nat"
  now :: nat

text \<open>
  The part of the agent the chain batcher owns: \<^verbatim>\<open>this.domainStates\<close> and the
  \<^verbatim>\<open>message-board-batch.json\<close> file of every domain. \<^verbatim>\<open>Config.readFile\<close> belongs to the host;
  for the batch file it is taken to give the saved object, or nothing when there is no
  file, and writes of the file are taken to succeed.
\<close>

record batcher =
  domainStates :: "domain \<rightharpoonup> domainState"
  batchFiles :: "domain \<rightharpoonup> batchData"

section \<open>Chain batcher\<close>

text \<open>
  \<^verbatim>\<open>getDomainState\<close> loads a domain's state on first use, from its batch file or as the
  empty chain on the genesis constant; \<open>stateOf\<close> is the state object it returns and
  \<open>setState\<close> an assignment to that object.
\<close>

definition getDomainState :: "domain \<Rightarrow> batcher \<Rightarrow> batcher" where
  "getDomainState d b =
     (case domainStates b d of
        Some _ \<Rightarrow> b
      | None \<Rightarrow>
          (let st = (case batchFiles b d of
                       None \<Rightarrow> \<lparr>postChain = [], lastHash = Genesis\<rparr>
                     | Some f \<Rightarrow> \<lparr>postChain = bd_chain f, lastHash = bd_lastHash f\<rparr>)
           in b\<lparr>domainStates := (domainStates b)(d \<mapsto> st)\<rparr>))"

definition stateOf :: "domain \<Rightarrow> batcher \<Rightarrow> domainState" where
  "stateOf d b = (case domainStates (getDomainState d b) d of
                    Some st \<Rightarrow> st
                  | None \<Rightarrow> \<lparr>postChain = [], lastHash = Genesis\<rparr>)"

definition hashPost :: "post \<Rightarrow> digest \<Rightarrow> digest" where
  "hashPost p prev = Sha256Post p prev"

definition signPostAsServer :: "env \<Rightarrow> chainedPost \<Rightarrow> serverSignature option" where
  "signPostAsServer e postData =
     (case wallet_address e of
        None \<Rightarrow> None
      | Some _ \<Rightarrow> Some \<lparr>ss_hash = Sha256Entry postData, ss_signature = ''0x...''\<rparr>)"

definition uploadToIPFS :: "env \<Rightarrow> payload \<Rightarrow> ipfsResult option" where
  "uploadToIPFS e data =
     (case ipfs_url e of
        None \<Rightarrow> None
      | Some url \<Rightarrow>
          (if url = [] then None
           else case ipfs_fetch e data of
                  FetchThrows \<Rightarrow> None
                | HttpNotOk _ \<Rightarrow> None
                | HttpOk h \<Rightarrow> Some \<lparr>r_hash = h, r_url = ipfs_gateway e @ ''/ipfs/'' @ h\<rparr>))"

definition saveBatchState :: "env \<Rightarrow> domain \<Rightarrow> batcher \<Rightarrow> batcher" where
  "saveBatchState e d b =
     (let b1 = getDomainState d b; st = stateOf d b1
      in b1\<lparr>batchFiles := (batchFiles b1)
               (d \<mapsto> \<lparr>bd_chain = postChain st, bd_lastHash = lastHash st, bd_lastFlush = now e\<rparr>)\<rparr>)"

definition setState :: "domain \<Rightarrow> domainState \<Rightarrow> batcher \<Rightarrow> batcher" where
  "setState d st b = b\<lparr>domainStates := (domainStates b)(d \<mapsto> st)\<rparr>"

text \<open>The batch summary of a flush, and the chain entry and the data wallet of an append.\<close>

definition summaryOf :: "env \<Rightarrow> domainState \<Rightarrow> batchSummary" where
  "summaryOf e st =
     \<lparr>bs_posts = map (\<lambda>p. \<lparr>se_id = p_id (cp_post p), se_hash = hash p, se_ipfsHash = ipfsHash p,
                             se_author = p_author (cp_post p), se_timestamp = p_timestamp (cp_post p)\<rparr>)
                     (postChain st),
      bs_chainRoot = lastHash st,
      bs_count = length (postChain st),
      bs_timestamp = now e\<rparr>"

text \<open>
  \<^verbatim>\<open>flushBatch\<close>: nothing to do on an empty chain; otherwise the summary is uploaded,
  and, whatever \<^verbatim>\<open>uploadToIPFS\<close> returned (it reports a failure as \<^verbatim>\<open>null\<close>, which only
  skips the logging branch), the chain is cleared, \<^verbatim>\<open>lastHash\<close> is rehashed and the
  state is saved. Nothing before the save throws, so the handler of the \<^verbatim>\<open>try\<close> block
  is never entered. The second component is what the upload of the summary returned.
\<close>

definition flushBatch :: "env \<Rightarrow> domain \<Rightarrow> batcher \<Rightarrow> batcher \<times> ipfsResult option" where
  "flushBatch e d b =
     (let b1 = getDomainState d b; st = stateOf d b1
      in if length (postChain st) = 0 then (b1, None)
         else
           (let batchIpfs = uploadToIPFS e (SummaryPayload (summaryOf e st));
                st' = st\<lparr>postChain := [], lastHash := Sha256Hex (lastHash st)\<rparr>
            in (saveBatchState e d (setState d st' b1), batchIpfs)))"

definition chainEntry :: "post \<Rightarrow> string option \<Rightarrow> domainState \<Rightarrow> chainedPost" where
  "chainEntry p userSig st =
     \<lparr>cp_post = p, hash = hashPost p (lastHash st), previousHash = lastHash st,
      chainIndex = length (postChain st), userSignature = userSig,
      ipfsHash = None, ipfsUrl = None\<rparr>"

definition walletOf :: "env \<Rightarrow> post \<Rightarrow> string option \<Rightarrow> domainState \<Rightarrow> dataWallet" where
  "walletOf e p userSig st =
     \<lparr>dw_data = (p_id p, p_text p, p_image p, p_timestamp p),
      dw_author = (p_author p, p_authorName p,
                   (case userSig of None \<Rightarrow> ''client-side-signature-pending'' | Some s \<Rightarrow>
                      if s = [] then ''client-side-signature-pending'' else s)),
      dw_server = ((case wallet_address e of None \<Rightarrow> ''server-wallet-pending'' | Some a \<Rightarrow>
                      if a = [] then ''server-wallet-pending'' else a),
                   (case domainName e of None \<Rightarrow> ''localhost'' | Some n \<Rightarrow>
                      if n = [] then ''localhost'' else n),
                   signPostAsServer e (chainEntry p userSig st)),
      dw_chain = (hashPost p (lastHash st), lastHash st, length (postChain st)),
      dw_timestamp = now e\<rparr>"

text \<open>
  The first half of \<^verbatim>\<open>addPostToBatch\<close>, up to and including the save: the entry is built
  on the current \<^verbatim>\<open>lastHash\<close>, uploaded (best effort), pushed, and \<^verbatim>\<open>lastHash\<close> moves to
  its hash.
\<close>

definition linkPost :: "env \<Rightarrow> post \<Rightarrow> string option \<Rightarrow> domain \<Rightarrow> batcher
                         \<Rightarrow> chainedPost \<times> batcher" where
  "linkPost e p userSig d b =
     (let b1 = getDomainState d b; st = stateOf d b1;
          entry = chainEntry p userSig st;
          ipfsRes = uploadToIPFS e (WalletPayload (walletOf e p userSig st));
          chained = (case ipfsRes of
                       None \<Rightarrow> entry
                     | Some r \<Rightarrow> entry\<lparr>ipfsHash := Some (r_hash r), ipfsUrl := Some (r_url r)\<rparr>);
          st' = st\<lparr>postChain := postChain st @ [chained], lastHash := hash entry\<rparr>
      in (chained, saveBatchState e d (setState d st' b1)))"

definition addPostToBatch :: "env \<Rightarrow> post \<Rightarrow> string option \<Rightarrow> domain \<Rightarrow> batcher
                               \<Rightarrow> chainedPost \<times> batcher" where
  "addPostToBatch e p userSig d b =
     (let (chained, b1) = linkPost e p userSig d b
      in if length (postChain (stateOf d b1)) \<ge> batchThreshold e d
         then (chained, fst (flushBatch e d b1))
         else (chained, b1))"

definition newBatcher :: batcher where
  "newBatcher = \<lparr>domainStates = Map.empty, batchFiles = Map.empty\<rparr>"


section \<open>Storage backend\<close>

text \<open>A thrown error, with its message.\<close>

datatype error = Exception string

text \<open>
  A stored file either parses to the value the code expects (\<open>Parsed\<close>) or makes
  \<^verbatim>\<open>JSON.parse\<close> (or the first use of the parsed value) throw an error (\<open>Unparsable\<close>, with
  the error's message); a missing file is \<open>None\<close>. Writes to the storage backend are taken
  to succeed.
\<close>

datatype 'a stored = Unparsable string | Parsed 'a

record meta =
  m_id :: nat
  m_timestamp :: nat
  m_author :: address
  m_channel :: "string option"

record index =
  i_nextId :: nat
  i_posts :: "meta list"

record postsData =
  d_posts :: "post list"
  d_nextId :: nat

record storageBackend =
  indexFile :: "index stored option"
  postFiles :: "nat \<rightharpoonup> post stored"

record channel =
  ch_name :: string
  ch_list :: "string option"

text \<open>
  A configured channel is an object, or (a legacy artefact) a string that is parsed on
  use; the string is represented by what \<^verbatim>\<open>JSON.parse\<close> makes of it: a channel, or
  the error it throws.
\<close>

datatype chanEntry = ChanObj channel | ChanStr "error + channel"

text \<open>
  What is sent to the listeners of a domain, and the state of the board: per domain the
  storage backend, the legacy monolith \<^verbatim>\<open>message-board-posts.json\<close> and the configured
  channels; the chain batcher; and the messages broadcast so far.
\<close>

datatype message =
  NewPost post
| NewComment nat comment
| DeletePost nat
| EditPost post

record server =
  storage :: "domain \<Rightarrow> storageBackend"
  legacyFiles :: "domain \<rightharpoonup> postsData stored"
  channels :: "domain \<Rightarrow> chanEntry list"
  chains :: batcher
  broadcasts :: "(domain \<times> message) list"

text \<open>
  A response is the JSON value sent with status 200, or a status with the \<^verbatim>\<open>error\<close>
  message of the body (the other fields of an error body are left out).
\<close>

datatype 'a response = Json 'a | Status nat string

text \<open>\<^verbatim>\<open>x || null\<close> on an optional string: the empty string is falsy.\<close>

definition orNull :: "string option \<Rightarrow> string option" where
  "orNull x = (case x of None \<Rightarrow> None | Some s \<Rightarrow> if s = [] then None else Some s)"

definition metaOf :: "post \<Rightarrow> meta" where
  "metaOf p = \<lparr>m_id = p_id p, m_timestamp = p_timestamp p, m_author = p_author p,
               m_channel = orNull (p_channel p)\<rparr>"

definition writePostFile :: "post \<Rightarrow> storageBackend \<Rightarrow> storageBackend" where
  "writePostFile p st = st\<lparr>postFiles := (postFiles st)(p_id p \<mapsto> Parsed p)\<rparr>"

definition writeIndexFile :: "postsData \<Rightarrow> storageBackend \<Rightarrow> storageBackend" where
  "writeIndexFile data st =
     st\<lparr>indexFile := Some (Parsed \<lparr>i_nextId = d_nextId data, i_posts = map metaOf (d_posts data)\<rparr>)\<rparr>"

definition updStorage :: "domain \<Rightarrow> (storageBackend \<Rightarrow> storageBackend) \<Rightarrow> server \<Rightarrow> server" where
  "updStorage d f srv = srv\<lparr>storage := (storage srv)(d := f (storage srv d))\<rparr>"

definition writePost :: "domain \<Rightarrow> post \<Rightarrow> server \<Rightarrow> server" where
  "writePost d p srv = updStorage d (writePostFile p) srv"


definition writeData :: "domain \<Rightarrow> postsData \<Rightarrow> server \<Rightarrow> server" where
  "writeData d data srv = updStorage d (writeIndexFile data) srv"

text \<open>
  \<^verbatim>\<open>migrateLegacyData\<close>: the legacy monolith \<^verbatim>\<open>message-board-posts.json\<close> is fanned out
  into one file per post (in the order of the monolith) plus the index, and returned. A
  missing monolith (\<^verbatim>\<open>ENOENT\<close>) gives the fresh ledger and writes nothing, and so does
  an error whose message includes \<^verbatim>\<open>'not found'\<close>; any other failure is rethrown.
\<close>

definition includesStr :: "string \<Rightarrow> string \<Rightarrow> bool" where
  "includesStr s sub = list_ex (\<lambda>i. take (length sub) (drop i s) = sub) [0..<Suc (length s)]"

definition migrateLegacyData :: "domain \<Rightarrow> server \<Rightarrow> (error + postsData) \<times> server" where
  "migrateLegacyData d srv =
     (case legacyFiles srv d of
        None \<Rightarrow> (Inr \<lparr>d_posts = [], d_nextId = 1\<rparr>, srv)
      | Some (Unparsable m) \<Rightarrow>
          (if includesStr m ''not found'' then (Inr \<lparr>d_posts = [], d_nextId = 1\<rparr>, srv)
           else (Inl (Exception m), srv))
      | Some (Parsed data) \<Rightarrow>
          (Inr data,
           updStorage d (\<lambda>st. writeIndexFile data (fold writePostFile (d_posts data) st)) srv))"

definition loadPost :: "storageBackend \<Rightarrow> meta \<Rightarrow> post option" where
  "loadPost st m = (case postFiles st (m_id m) of
                      Some (Parsed p) \<Rightarrow> Some p
                    | Some (Unparsable _) \<Rightarrow> None
                    | None \<Rightarrow> None)"

text \<open>
  \<^verbatim>\<open>readData\<close>: with a readable index, every listed post is loaded (a post that fails to
  load is skipped) and \<^verbatim>\<open>nextId\<close> is the index's, or one more than the largest loaded id
  when the index has none (\<open>0\<close> is falsy). Any failure in reading the index falls back to
  the migration.
\<close>

definition readData :: "domain \<Rightarrow> server \<Rightarrow> (error + postsData) \<times> server" where
  "readData d srv =
     (case indexFile (storage srv d) of
        Some (Parsed idx) \<Rightarrow>
          (let posts = List.map_filter (loadPost (storage srv d)) (i_posts idx)
           in (Inr \<lparr>d_posts = posts,
                    d_nextId = (if i_nextId idx \<noteq> 0 then i_nextId idx
                                else fold max (map p_id posts) 0 + 1)\<rparr>, srv))
      | Some (Unparsable _) \<Rightarrow> migrateLegacyData d srv
      | None \<Rightarrow> migrateLegacyData d srv)"

definition broadcast :: "message \<Rightarrow> domain \<Rightarrow> server \<Rightarrow> server" where
  "broadcast m d srv = srv\<lparr>broadcasts := broadcasts srv @ [(d, m)]\<rparr>"

section \<open>Access resolver\<close>

text \<open>
  The authorization oracle (\<^verbatim>\<open>req.domainAcl\<close>) and the image settings are surroundings
  too. An oracle call that throws answers \<open>Inl\<close> of the error. \<^verbatim>\<open>getUserName\<close> catches every error
  of its own and is represented by its result; \<^verbatim>\<open>sanitizeSvg\<close> by its result, \<open>None\<close>
  when it throws.
\<close>

record acl =
  checkAgentAccess :: "address \<Rightarrow> domain \<Rightarrow> error + nat"
  isInACL :: "string \<Rightarrow> address \<Rightarrow> error + bool"
  getUserName :: "address \<Rightarrow> string option"

record imageSettings =
  maxProcessedSize :: nat
  allowSvg :: bool
  sanitizeSvg :: "string \<Rightarrow> string option"

record request =
  r_domain :: domain
  episteryClient :: "address option"
  domainAcl :: acl
  settings :: imageSettings
  b_text :: "string option"
  b_image :: "string option"
  b_channel :: "string option"
  b_name :: "string option"
  b_list :: "string option"
  q_channel :: "string option"
  param_id :: nat

datatype permission = Allowed address "string option" nat | Denied string

definition checkPostingPermission :: "request \<Rightarrow> permission" where
  "checkPostingPermission req =
     (case episteryClient req of
        None \<Rightarrow> Denied ''Authentication required''
      | Some a \<Rightarrow>
          (case checkAgentAccess (domainAcl req) a (r_domain req) of
             Inl _ \<Rightarrow> Denied ''Permission check failed''
           | Inr level \<Rightarrow>
               if level \<ge> 2 then Allowed a (getUserName (domainAcl req) a) level
               else Denied ''You need editor privileges to post. Request access in the sidebar.''))"

definition checkAdminPermission :: "request \<Rightarrow> permission" where
  "checkAdminPermission req =
     (case episteryClient req of
        None \<Rightarrow> Denied ''Authentication required''
      | Some a \<Rightarrow>
          (case checkAgentAccess (domainAcl req) a (r_domain req) of
             Inl _ \<Rightarrow> Denied ''Permission check failed''
           | Inr level \<Rightarrow>
               if level \<ge> 3 then Allowed a None level
               else Denied ''Admin permission required''))"

fun parseChannels :: "chanEntry list \<Rightarrow> error + channel list" where
  "parseChannels [] = Inr []"
| "parseChannels (ChanObj c # cs) =
     (case parseChannels cs of Inl x \<Rightarrow> Inl x | Inr rest \<Rightarrow> Inr (c # rest))"
| "parseChannels (ChanStr (Inr c) # cs) =
     (case parseChannels cs of Inl x \<Rightarrow> Inl x | Inr rest \<Rightarrow> Inr (c # rest))"
| "parseChannels (ChanStr (Inl x) # cs) = Inl x"

text \<open>The loop over the channels for a caller below admin level; a throwing list lookup ends it.\<close>

fun channelsFor :: "acl \<Rightarrow> address \<Rightarrow> nat \<Rightarrow> channel list \<Rightarrow> error + string list" where
  "channelsFor a addr level [] = Inr []"
| "channelsFor a addr level (ch # chs) =
     (case orNull (ch_list ch) of
        None \<Rightarrow>
          (case channelsFor a addr level chs of
             Inl x \<Rightarrow> Inl x
           | Inr rest \<Rightarrow> Inr (if level \<ge> 1 then ch_name ch # rest else rest))
      | Some l \<Rightarrow>
          (case isInACL a l addr of
             Inl x \<Rightarrow> Inl x
           | Inr listed \<Rightarrow>
               (case channelsFor a addr level chs of
                  Inl x \<Rightarrow> Inl x
                | Inr rest \<Rightarrow> Inr (if listed then ch_name ch # rest else rest))))"

text \<open>
  \<^verbatim>\<open>getAccessibleChannelNames\<close>: always \<^verbatim>\<open>'general'\<close>; an authenticated caller's level
  is asked from the oracle with no handler around the call.
\<close>

definition getAccessibleChannelNames :: "request \<Rightarrow> server \<Rightarrow> error + string list" where
  "getAccessibleChannelNames req srv =
     (case parseChannels (channels srv (r_domain req)) of
        Inl x \<Rightarrow> Inl x
      | Inr chs \<Rightarrow>
          (case orNull (episteryClient req) of
             Some addr \<Rightarrow>
               (case checkAgentAccess (domainAcl req) addr (r_domain req) of
                  Inl x \<Rightarrow> Inl x
                | Inr level \<Rightarrow>
                    if level \<ge> 3 then Inr (''general'' # map ch_name chs)
                    else (case channelsFor (domainAcl req) addr level chs of
                            Inl x \<Rightarrow> Inl x
                          | Inr names \<Rightarrow> Inr (''general'' # names)))
           | None \<Rightarrow> Inr (''general'' # map ch_name (filter (\<lambda>ch. orNull (ch_list ch) = None) chs))))"


section \<open>Ledger writer and readers\<close>

text \<open>
  \<^verbatim>\<open>String.prototype.trim\<close> on strings of 8-bit code units: tab, line feed, vertical tab,
  form feed, carriage return, space and the no-break space are white space.
\<close>

definition isWhiteSpace :: "char \<Rightarrow> bool" where
  "isWhiteSpace c = (c \<in> {CHR 0x09, CHR 0x0A, CHR 0x0B, CHR 0x0C, CHR 0x0D, CHR 0x20, CHR 0xA0})"

definition trim :: "string \<Rightarrow> string" where
  "trim s = rev (dropWhile isWhiteSpace (rev (dropWhile isWhiteSpace s)))"

definition textMissing :: "string option \<Rightarrow> bool" where
  "textMissing t = (case t of None \<Rightarrow> True | Some s \<Rightarrow> s = [] \<or> length (trim s) = 0)"

fun findChannel :: "string \<Rightarrow> chanEntry list \<Rightarrow> error + channel option" where
  "findChannel n [] = Inr None"
| "findChannel n (ChanObj c # cs) = (if ch_name c = n then Inr (Some c) else findChannel n cs)"
| "findChannel n (ChanStr (Inr c) # cs) = (if ch_name c = n then Inr (Some c) else findChannel n cs)"
| "findChannel n (ChanStr (Inl x) # cs) = Inl x"

definition startsWith :: "string \<Rightarrow> string \<Rightarrow> bool" where
  "startsWith s pre = (take (length pre) s = pre)"

text \<open>
  The checks of \<^verbatim>\<open>router.post('/api/posts')\<close> that come before the permission check, in
  the order of the source; the result is the error response of the first check that
  fails. A throw inside the handler ends in its \<^verbatim>\<open>catch\<close>, with status 500.
\<close>

text \<open>A number in decimal, as a template literal prints it.\<close>

fun showNat :: "nat \<Rightarrow> string" where
  "showNat n = (if n < 10 then [char_of (48 + n)]
                else showNat (n div 10) @ [char_of (48 + n mod 10)])"

definition validateImage :: "imageSettings \<Rightarrow> string \<Rightarrow> (nat \<times> string) option" where
  "validateImage cfg img =
     (if \<not> startsWith img ''data:image/'' then Some (400, ''Invalid image format'')
      else if (length img * 3 + 2) div 4 > maxProcessedSize cfg * 1024 * 1024
        then Some (400, ''Image too large. Maximum size is '' @ showNat (maxProcessedSize cfg) @ ''MB.'')
      else if \<not> startsWith img ''data:image/jpeg'' \<and> \<not> startsWith img ''data:image/svg+xml''
        then Some (400, ''Only JPEG and SVG images are allowed'')
      else if startsWith img ''data:image/svg+xml'' \<and> \<not> allowSvg cfg
        then Some (400, ''SVG images are not allowed on this board'')
      else if startsWith img ''data:image/svg+xml'' \<and> sanitizeSvg cfg img = None
        then Some (400, ''Invalid or malicious SVG content'')
      else None)"

definition validatePost :: "request \<Rightarrow> server \<Rightarrow> (nat \<times> string) option" where
  "validatePost req srv =
     (if textMissing (b_text req) then Some (400, ''Text is required'')
      else
        (case (case orNull (b_channel req) of
                 None \<Rightarrow> None
               | Some ch \<Rightarrow>
                   if ch = ''general'' then None
                   else (case findChannel ch (channels srv (r_domain req)) of
                           Inl (Exception m) \<Rightarrow> Some (500, m)
                         | Inr None \<Rightarrow> Some (400, ''Invalid channel'')
                         | Inr (Some _) \<Rightarrow> None)) of
           Some r \<Rightarrow> Some r
         | None \<Rightarrow>
             (case orNull (b_image req) of
                None \<Rightarrow> None
              | Some img \<Rightarrow> validateImage (settings req) img)))"

text \<open>
  The post a permitted request creates from what \<^verbatim>\<open>readData\<close> returned, and the data
  object after \<^verbatim>\<open>data.nextId++\<close> and \<^verbatim>\<open>data.posts.unshift(post)\<close>.
\<close>

definition newPost :: "env \<Rightarrow> request \<Rightarrow> address \<Rightarrow> string option \<Rightarrow> postsData \<Rightarrow> post" where
  "newPost e req addr name data =
     \<lparr>p_id = d_nextId data,
      p_text = trim (case b_text req of None \<Rightarrow> [] | Some t \<Rightarrow> t),
      p_image = orNull (b_image req),
      p_author = addr,
      p_authorName = orNull name,
      p_timestamp = now e,
      p_comments = [],
      p_channel = orNull (b_channel req),
      p_editedAt = None\<rparr>"

definition withPost :: "post \<Rightarrow> postsData \<Rightarrow> postsData" where
  "withPost p data = \<lparr>d_posts = p # d_posts data, d_nextId = d_nextId data + 1\<rparr>"

text \<open>
  \<^verbatim>\<open>router.post('/api/posts')\<close> in three stretches, cut where the handler awaits the
  storage backend: up to the return of \<^verbatim>\<open>readData\<close> and the construction of the post
  (\<open>beginPost\<close>), the write of the post file (\<open>writePost\<close>), and the write of the index
  with the broadcast and the response (\<open>finishPost\<close>). The chain batcher gets the post
  after the response, from \<^verbatim>\<open>setImmediate\<close>.
\<close>

definition beginPost :: "env \<Rightarrow> request \<Rightarrow> server
                          \<Rightarrow> ((nat \<times> string) + (post \<times> postsData)) \<times> server" where
  "beginPost e req srv =
     (case validatePost req srv of
        Some r \<Rightarrow> (Inl r, srv)
      | None \<Rightarrow>
          (case checkPostingPermission req of
             Denied reason \<Rightarrow> (Inl (403, reason), srv)
           | Allowed addr name level \<Rightarrow>
               (case readData (r_domain req) srv of
                  (Inl (Exception m), srv1) \<Rightarrow> (Inl (500, m), srv1)
                | (Inr data, srv1) \<Rightarrow>
                    (let p = newPost e req addr name data
                     in (Inr (p, withPost p data), srv1)))))"

definition finishPost :: "domain \<Rightarrow> post \<Rightarrow> postsData \<Rightarrow> server \<Rightarrow> server" where
  "finishPost d p data srv = broadcast (NewPost p) d (writeData d data srv)"

definition enqueue :: "env \<Rightarrow> domain \<Rightarrow> post \<Rightarrow> server \<Rightarrow> server" where
  "enqueue e d p srv = srv\<lparr>chains := snd (addPostToBatch e p None d (chains srv))\<rparr>"

definition submitPost :: "env \<Rightarrow> request \<Rightarrow> server \<Rightarrow> post response \<times> server" where
  "submitPost e req srv =
     (case beginPost e req srv of
        (Inl (code, m), srv1) \<Rightarrow> (Status code m, srv1)
      | (Inr (p, data), srv1) \<Rightarrow>
          (Json p,
           enqueue e (r_domain req) p
             (finishPost (r_domain req) p data (writePost (r_domain req) p srv1))))"

text \<open>\<^verbatim>\<open>router.post('/api/posts/:id/comments')\<close>; the comment's id is the clock's reading.\<close>

fun addCommentFirst :: "nat \<Rightarrow> comment \<Rightarrow> post list \<Rightarrow> post list" where
  "addCommentFirst i c [] = []"
| "addCommentFirst i c (p # ps) =
     (if p_id p = i then p\<lparr>p_comments := p_comments p @ [c]\<rparr> # ps
      else p # addCommentFirst i c ps)"

definition submitComment :: "env \<Rightarrow> request \<Rightarrow> server \<Rightarrow> comment response \<times> server" where
  "submitComment e req srv =
     (if textMissing (b_text req) then (Status 400 ''Text is required'', srv)
      else
        (case checkPostingPermission req of
           Denied reason \<Rightarrow> (Status 403 reason, srv)
         | Allowed addr name level \<Rightarrow>
             (case readData (r_domain req) srv of
                (Inl (Exception m), srv1) \<Rightarrow> (Status 500 m, srv1)
              | (Inr data, srv1) \<Rightarrow>
                  (case find (\<lambda>p. p_id p = param_id req) (d_posts data) of
                     None \<Rightarrow> (Status 404 ''Post not found'', srv1)
                   | Some p \<Rightarrow>
                       (let c = \<lparr>c_id = now e,
                                 c_text = trim (case b_text req of None \<Rightarrow> [] | Some t \<Rightarrow> t),
                                 c_author = addr, c_authorName = orNull name,
                                 c_timestamp = now e\<rparr>;
                            p' = p\<lparr>p_comments := p_comments p @ [c]\<rparr>;
                            data' = data\<lparr>d_posts := addCommentFirst (param_id req) c (d_posts data)\<rparr>
                        in (Json c,
                            broadcast (NewComment (param_id req) c) (r_domain req)
                              (writeData (r_domain req) data'
                                (writePost (r_domain req) p' srv1))))))))"




fun editFirst :: "nat \<Rightarrow> string \<Rightarrow> nat \<Rightarrow> post list \<Rightarrow> post list" where
  "editFirst i t at [] = []"
| "editFirst i t at (p # ps) =
     (if p_id p = i then p\<lparr>p_text := t, p_editedAt := Some at\<rparr> # ps
      else p # editFirst i t at ps)"



text \<open>\<^verbatim>\<open>router.get('/api/posts')\<close>: the posts of the channels the caller may see.\<close>

definition channelOf :: "post \<Rightarrow> string" where
  "channelOf p = (case orNull (p_channel p) of None \<Rightarrow> ''general'' | Some c \<Rightarrow> c)"

definition listPosts :: "request \<Rightarrow> server \<Rightarrow> post list response \<times> server" where
  "listPosts req srv =
     (case readData (r_domain req) srv of
        (Inl (Exception m), srv1) \<Rightarrow> (Status 500 m, srv1)
      | (Inr data, srv1) \<Rightarrow>
          (case getAccessibleChannelNames req srv1 of
             Inl (Exception m) \<Rightarrow> (Status 500 m, srv1)
           | Inr accessible \<Rightarrow>
               (let posts = filter (\<lambda>p. channelOf p \<in> set accessible) (d_posts data)
                in case orNull (q_channel req) of
                     None \<Rightarrow> (Json posts, srv1)
                   | Some ch \<Rightarrow>
                       if ch \<notin> set accessible then (Status 403 ''Access denied'', srv1)
                       else if ch = ''general''
                         then (Json (filter (\<lambda>p. orNull (p_channel p) = None \<or>
                                                   p_channel p = Some ''general'') posts), srv1)
                       else (Json (filter (\<lambda>p. p_channel p = Some ch) posts), srv1))))"

section \<open>Channel registry\<close>

text \<open>The test \<^verbatim>\<open>/^[a-z0-9-]+$/\<close> of \<^verbatim>\<open>router.post('/api/channels')\<close>.\<close>

definition isChannelChar :: "char \<Rightarrow> bool" where
  "isChannelChar c =
     (let n = (of_char c :: nat)
      in (of_char (CHR ''a'') \<le> n \<and> n \<le> of_char (CHR ''z'')) \<or>
         (of_char (CHR ''0'') \<le> n \<and> n \<le> of_char (CHR ''9'')) \<or> c = CHR ''-'')"

definition validChannelName :: "string \<Rightarrow> bool" where
  "validChannelName n = (n \<noteq> [] \<and> list_all isChannelChar n)"

definition createChannel :: "request \<Rightarrow> server \<Rightarrow> channel response \<times> server" where
  "createChannel req srv =
     (case checkAdminPermission req of
        Denied _ \<Rightarrow> (Status 403 ''Only admins can add channels'', srv)
      | Allowed _ _ _ \<Rightarrow>
          (case orNull (b_name req) of
             None \<Rightarrow> (Status 400 ''Invalid channel name. Use lowercase letters, numbers, and hyphens only.'', srv)
           | Some name \<Rightarrow>
               if \<not> validChannelName name
                 then (Status 400 ''Invalid channel name. Use lowercase letters, numbers, and hyphens only.'', srv)
               else if name = ''general''
                 then (Status 400 ''Channel name \"general\" is reserved for uncategorized posts.'', srv)
               else
                 (case findChannel name (channels srv (r_domain req)) of
                    Inl (Exception m) \<Rightarrow> (Status 500 m, srv)
                  | Inr (Some _) \<Rightarrow> (Status 400 ''Channel already exists'', srv)
                  | Inr None \<Rightarrow>
                      (let ch = \<lparr>ch_name = name, ch_list = orNull (b_list req)\<rparr>
                       in (Json ch,
                           srv\<lparr>channels := (channels srv)
                                  (r_domain req := channels srv (r_domain req) @ [ChanObj ch])\<rparr>)))))"

definition newServer :: server where
  "newServer = \<lparr>storage = (\<lambda>_. \<lparr>indexFile = None, postFiles = Map.empty\<rparr>),
                legacyFiles = Map.empty,
                channels = (\<lambda>_. []),
                chains = newBatcher,
                broadcasts = []\<rparr>"

section \<open>Verification vocabulary\<close>

subsection \<open>Chain batcher\<close>

text \<open>
  What a domain's state is when loaded from its batch file, and the combined effect of
  setting a domain's state and saving it.
\<close>

definition persisted :: "domain \<Rightarrow> batcher \<Rightarrow> domainState" where
  "persisted d b = (case batchFiles b d of
                       None \<Rightarrow> \<lparr>postChain = [], lastHash = Genesis\<rparr>
                     | Some f \<Rightarrow> \<lparr>postChain = bd_chain f, lastHash = bd_lastHash f\<rparr>)"

definition commit :: "env \<Rightarrow> domain \<Rightarrow> domainState \<Rightarrow> batcher \<Rightarrow> batcher" where
  "commit e d st b = b\<lparr>domainStates := (domainStates b)(d \<mapsto> st),
                       batchFiles := (batchFiles b)
                         (d \<mapsto> \<lparr>bd_chain = postChain st, bd_lastHash = lastHash st, bd_lastFlush = now e\<rparr>)\<rparr>"


fun linkedFrom :: "digest \<Rightarrow> nat \<Rightarrow> chainedPost list \<Rightarrow> bool" where
  "linkedFrom r i [] = True"
| "linkedFrom r i (l # ls) =
     (previousHash l = r \<and> chainIndex l = i \<and> hash l = hashPost (cp_post l) r \<and>
      linkedFrom (hash l) (Suc i) ls)"

fun tipOf :: "digest \<Rightarrow> chainedPost list \<Rightarrow> digest" where
  "tipOf r [] = r"
| "tipOf r (l # ls) = tipOf (hash l) ls"




text \<open>
  The ways the batcher's state changes: an append from a request, a flush of one domain
  (as \<^verbatim>\<open>cleanup\<close> calls it), and a restart of the process, which forgets
  \<^verbatim>\<open>this.domainStates\<close> and keeps the files. Appends run one after the other.
\<close>

datatype batcherOp = Append env post "string option" domain | Flush env domain | Restart

fun applyOp :: "batcherOp \<Rightarrow> batcher \<Rightarrow> batcher" where
  "applyOp (Append e p s d) b = snd (addPostToBatch e p s d b)"
| "applyOp (Flush e d) b = fst (flushBatch e d b)"
| "applyOp Restart b = b\<lparr>domainStates := Map.empty\<rparr>"

definition run :: "batcherOp list \<Rightarrow> batcher \<Rightarrow> batcher" where
  "run ops b = fold applyOp ops b"

text \<open>A run of appends to one domain, with the entries they return.\<close>

fun appendAll :: "env \<Rightarrow> domain \<Rightarrow> post list \<Rightarrow> batcher \<Rightarrow> chainedPost list \<times> batcher" where
  "appendAll e d [] b = ([], b)"
| "appendAll e d (p # ps) b =
     (let (l, b1) = addPostToBatch e p None d b; (ls, b2) = appendAll e d ps b1
      in (l # ls, b2))"

text \<open>Concrete surroundings and runs: a content store that is down, and a few posts.\<close>

definition examplePost :: "nat \<Rightarrow> post" where
  "examplePost i = \<lparr>p_id = i, p_text = ''hello'', p_image = None, p_author = ''0xa11ce'',
                    p_authorName = None, p_timestamp = 1700000000000, p_comments = [],
                    p_channel = None, p_editedAt = None\<rparr>"

definition offlineEnv :: "nat \<Rightarrow> env" where
  "offlineEnv t = \<lparr>ipfs_url = Some ''http://127.0.0.1:5001/api/v0'', ipfs_gateway = ''http://127.0.0.1:8080'',
                   ipfs_fetch = (\<lambda>_. FetchThrows), wallet_address = None, domainName = None,
                   batchThreshold = (\<lambda>_. t), now = 1700000000000\<rparr>"



definition oneLink :: batcher where
  "oneLink = snd (addPostToBatch (offlineEnv 5) (examplePost 1) None ''t1'' newBatcher)"

subsection \<open>Ledger\<close>

text \<open>
  A caller \<^verbatim>\<open>0xb0b\<close> of domain \<^verbatim>\<open>t1\<close> whose access check gives the stated answer, and the
  same caller asking for a channel as an admin.
\<close>

definition exampleAcl :: "error + nat \<Rightarrow> acl" where
  "exampleAcl lv = \<lparr>checkAgentAccess = (\<lambda>_ _. lv), isInACL = (\<lambda>_ _. Inr False),
                    getUserName = (\<lambda>_. None)\<rparr>"

definition exampleSettings :: imageSettings where
  "exampleSettings = \<lparr>maxProcessedSize = 3, allowSvg = True, sanitizeSvg = (\<lambda>s. Some s)\<rparr>"

definition exampleRequest :: "error + nat \<Rightarrow> string option \<Rightarrow> request" where
  "exampleRequest lv txt =
     \<lparr>r_domain = ''t1'', episteryClient = Some ''0xb0b'', domainAcl = exampleAcl lv,
      settings = exampleSettings, b_text = txt, b_image = None, b_channel = None,
      b_name = None, b_list = None, q_channel = None, param_id = 1\<rparr>"

definition adminRequest :: "string option \<Rightarrow> request" where
  "adminRequest name = (exampleRequest (Inr 3) None)\<lparr>b_name := name\<rparr>"

subsection \<open>Storage\<close>

text \<open>
  A well-kept ledger: every post file holds a post of the id in its name; the index, if
  readable, lists ids in strictly decreasing order, all below its \<open>nextId\<close>; and so does the
  legacy monolith, if there is one that parses.
\<close>

definition filesOk :: "storageBackend \<Rightarrow> bool" where
  "filesOk st = (\<forall>i p. postFiles st i = Some (Parsed p) \<longrightarrow> p_id p = i)"










text \<open>
  Post requests handled one after the other, with their responses.
\<close>

fun submitAll :: "env \<Rightarrow> request list \<Rightarrow> server \<Rightarrow> post response list \<times> server" where
  "submitAll e [] srv = ([], srv)"
| "submitAll e (req # reqs) srv =
     (let (r, srv1) = submitPost e req srv; (rs, srv2) = submitAll e reqs srv1
      in (r # rs, srv2))"

fun postIdOf :: "post response \<Rightarrow> nat option" where
  "postIdOf (Json p) = Some (p_id p)"
| "postIdOf (Status _ _) = None"

text \<open>
  Post requests that overlap. A request is handled in the three stretches of
  \<open>beginPost\<close>, \<open>writePost\<close> and \<open>finishPost\<close>; between two stretches of one request,
  stretches of other requests may run. A schedule lists the stretches in the order they
  run; a stretch whose request is not at that point does nothing.
\<close>

datatype phase = Built post postsData | Stored post postsData

datatype step = Begin nat | Store nat | Finish nat

record sys =
  board :: server
  inflight :: "nat \<rightharpoonup> phase"
  answers :: "nat \<rightharpoonup> post response"

fun stepSys :: "env \<Rightarrow> (nat \<Rightarrow> request) \<Rightarrow> step \<Rightarrow> sys \<Rightarrow> sys" where
  "stepSys e reqs (Begin i) s =
     (if inflight s i \<noteq> None \<or> answers s i \<noteq> None then s
      else case beginPost e (reqs i) (board s) of
             (Inl (code, m), srv1) \<Rightarrow> s\<lparr>board := srv1, answers := (answers s)(i \<mapsto> Status code m)\<rparr>
           | (Inr (p, data), srv1) \<Rightarrow> s\<lparr>board := srv1, inflight := (inflight s)(i \<mapsto> Built p data)\<rparr>)"
| "stepSys e reqs (Store i) s =
     (case inflight s i of
        Some (Built p data) \<Rightarrow>
          s\<lparr>board := writePost (r_domain (reqs i)) p (board s),
            inflight := (inflight s)(i \<mapsto> Stored p data)\<rparr>
      | _ \<Rightarrow> s)"
| "stepSys e reqs (Finish i) s =
     (case inflight s i of
        Some (Stored p data) \<Rightarrow>
          s\<lparr>board := enqueue e (r_domain (reqs i)) p (finishPost (r_domain (reqs i)) p data (board s)),
            inflight := (inflight s)(i := None),
            answers := (answers s)(i \<mapsto> Json p)\<rparr>
      | _ \<Rightarrow> s)"

definition runSchedule :: "env \<Rightarrow> (nat \<Rightarrow> request) \<Rightarrow> step list \<Rightarrow> server \<Rightarrow> sys" where
  "runSchedule e reqs sched srv0 =
     fold (stepSys e reqs) sched \<lparr>board = srv0, inflight = Map.empty, answers = Map.empty\<rparr>"

text \<open>
  A valid post request of a poster, two requests of that kind that overlap, a server
  with a legacy monolith, and two posts in a row.
\<close>

definition posterRequest :: request where
  "posterRequest = exampleRequest (Inr 2) (Some ''hello'')"

definition sameRequests :: "nat \<Rightarrow> request" where
  "sameRequests i = posterRequest"

definition overlapping :: "step list" where
  "overlapping = [Begin 0, Begin 1, Store 0, Finish 0, Store 1, Finish 1]"

definition answeredId :: "sys \<Rightarrow> nat \<Rightarrow> nat option" where
  "answeredId s i = (case answers s i of None \<Rightarrow> None | Some r \<Rightarrow> postIdOf r)"



section \<open>Properties of the chain batcher\<close>

lemma stateOf_alt:
  "stateOf d b = (case domainStates b d of Some st \<Rightarrow> st | None \<Rightarrow> persisted d b)"
  by (simp add: stateOf_def getDomainState_def persisted_def Let_def split: option.splits)

lemma stateOf_getDomainState [simp]: "stateOf d (getDomainState d' b) = stateOf d b"
  by (simp add: stateOf_alt getDomainState_def persisted_def Let_def split: option.splits)

lemma save_set_commit:
  "saveBatchState e d (setState d st (getDomainState d b)) = commit e d st b"
  by (simp add: saveBatchState_def setState_def getDomainState_def commit_def stateOf_def Let_def
           split: option.splits)

lemma stateOf_commit: "stateOf d' (commit e d st b) = (if d' = d then st else stateOf d' b)"
  by (auto simp add: stateOf_alt commit_def persisted_def split: option.splits)


lemma linkPost_commit:
  "snd (linkPost e p s d b) =
     commit e d ((stateOf d b)\<lparr>postChain := postChain (stateOf d b) @ [fst (linkPost e p s d b)],
                                lastHash := hashPost p (lastHash (stateOf d b))\<rparr>) b"
  by (simp add: linkPost_def Let_def save_set_commit chainEntry_def)

lemma flushBatch_commit:
  "fst (flushBatch e d b) =
     (if postChain (stateOf d b) = [] then getDomainState d b
      else commit e d ((stateOf d b)\<lparr>postChain := [], lastHash := Sha256Hex (lastHash (stateOf d b))\<rparr>) b)"
  by (simp add: flushBatch_def Let_def save_set_commit)




lemma linkedFrom_index: "linkedFrom r i ls \<Longrightarrow> k < length ls \<Longrightarrow> chainIndex (ls ! k) = i + k"
  by (induction ls arbitrary: r i k) (auto simp: nth_Cons split: nat.splits)



lemma fst_linkPost:
  "fst (linkPost e p s d b) =
     (case uploadToIPFS e (WalletPayload (walletOf e p s (stateOf d b))) of
        None \<Rightarrow> chainEntry p s (stateOf d b)
      | Some r \<Rightarrow> (chainEntry p s (stateOf d b))\<lparr>ipfsHash := Some (r_hash r), ipfsUrl := Some (r_url r)\<rparr>)"
  by (simp add: linkPost_def Let_def split: option.splits)

lemma linkPost_entry_fields:
  "previousHash (fst (linkPost e p s d b)) = lastHash (stateOf d b)"
  "hash (fst (linkPost e p s d b)) = hashPost p (lastHash (stateOf d b))"
  "chainIndex (fst (linkPost e p s d b)) = length (postChain (stateOf d b))"
  "cp_post (fst (linkPost e p s d b)) = p"
  by (simp_all add: fst_linkPost chainEntry_def split: option.splits)












lemmas batcher_eval = addPostToBatch_def linkPost_def flushBatch_def saveBatchState_def setState_def
  getDomainState_def stateOf_def uploadToIPFS_def chainEntry_def walletOf_def summaryOf_def
  signPostAsServer_def hashPost_def newBatcher_def Let_def run_def

lemma stateOf_linkPost:
  "stateOf d' (snd (linkPost e p s d b)) =
     (if d' = d then (stateOf d b)\<lparr>postChain := postChain (stateOf d b) @ [fst (linkPost e p s d b)],
                                     lastHash := hash (fst (linkPost e p s d b))\<rparr>
      else stateOf d' b)"
  by (simp add: linkPost_commit stateOf_commit linkPost_entry_fields)

lemma stateOf_flushBatch:
  "stateOf d' (fst (flushBatch e d b)) =
     (if d' = d \<and> postChain (stateOf d b) \<noteq> []
      then (stateOf d b)\<lparr>postChain := [], lastHash := Sha256Hex (lastHash (stateOf d b))\<rparr>
      else stateOf d' b)"
  by (simp add: flushBatch_commit stateOf_commit)

lemma fst_addPostToBatch: "fst (addPostToBatch e p s d b) = fst (linkPost e p s d b)"
  by (simp add: addPostToBatch_def split_beta)

lemma stateOf_addPostToBatch:
  "stateOf d (snd (addPostToBatch e p s d b)) =
     (if Suc (length (postChain (stateOf d b))) \<ge> batchThreshold e d
      then (stateOf d b)\<lparr>postChain := [], lastHash := Sha256Hex (hash (fst (linkPost e p s d b)))\<rparr>
      else (stateOf d b)\<lparr>postChain := postChain (stateOf d b) @ [fst (linkPost e p s d b)],
                           lastHash := hash (fst (linkPost e p s d b))\<rparr>)"
  by (simp add: addPostToBatch_def split_beta stateOf_linkPost stateOf_flushBatch)

lemma appendAll_below:
  "length (postChain (stateOf d b)) + length ps < batchThreshold e d \<Longrightarrow>
     stateOf d (snd (appendAll e d ps b)) =
       (stateOf d b)\<lparr>postChain := postChain (stateOf d b) @ fst (appendAll e d ps b),
                     lastHash := tipOf (lastHash (stateOf d b)) (fst (appendAll e d ps b))\<rparr> \<and>
     length (fst (appendAll e d ps b)) = length ps"
proof (induction ps arbitrary: b)
  case Nil
  then show ?case by simp
next
  case (Cons p ps)
  let ?b1 = "snd (addPostToBatch e p None d b)"
  let ?l = "fst (linkPost e p None d b)"
  from Cons.prems have st1: "stateOf d ?b1 =
      (stateOf d b)\<lparr>postChain := postChain (stateOf d b) @ [?l], lastHash := hash ?l\<rparr>"
    by (simp add: stateOf_addPostToBatch)
  with Cons.prems have "length (postChain (stateOf d ?b1)) + length ps < batchThreshold e d"
    by simp
  from Cons.IH[OF this] show ?case
    by (simp add: split_beta st1 fst_addPostToBatch)
qed

lemma appendAll_snoc:
  "appendAll e d (ps @ [p]) b =
     (fst (appendAll e d ps b) @ [fst (addPostToBatch e p None d (snd (appendAll e d ps b)))],
      snd (addPostToBatch e p None d (snd (appendAll e d ps b))))"
  by (induction ps arbitrary: b) (simp_all add: split_beta)





text \<open>
  Claim C2, as amended. When the upload of the batch summary fails (\<^verbatim>\<open>uploadToIPFS\<close>
  returns \<^verbatim>\<open>null\<close>), the flush of a non-empty chain still clears the chain and rehashes
  \<open>lastHash\<close>, in memory and in the batch file: the batch is not kept for a retry. The
  state a flush leaves does not depend on what the content store answers.
\<close>

theorem failed_flush_clears_chain:
  assumes "postChain (stateOf d b) \<noteq> []"
    and "uploadToIPFS e (SummaryPayload (summaryOf e (stateOf d b))) = None"
  shows "snd (flushBatch e d b) = None \<and>
         postChain (stateOf d (fst (flushBatch e d b))) = [] \<and>
         lastHash (stateOf d (fst (flushBatch e d b))) = Sha256Hex (lastHash (stateOf d b)) \<and>
         batchFiles (fst (flushBatch e d b)) d =
           Some \<lparr>bd_chain = [], bd_lastHash = Sha256Hex (lastHash (stateOf d b)), bd_lastFlush = now e\<rparr> \<and>
         (\<forall>u g f. fst (flushBatch (e\<lparr>ipfs_url := u, ipfs_gateway := g, ipfs_fetch := f\<rparr>) d b) =
                    fst (flushBatch e d b))"
proof -
  have 1: "snd (flushBatch e d b) = None"
    using assms by (simp add: flushBatch_def Let_def)
  have 2: "postChain (stateOf d (fst (flushBatch e d b))) = []"
    using assms by (simp add: stateOf_flushBatch)
  have 3: "lastHash (stateOf d (fst (flushBatch e d b))) = Sha256Hex (lastHash (stateOf d b))"
    using assms by (simp add: stateOf_flushBatch)
  have 4: "batchFiles (fst (flushBatch e d b)) d =
           Some \<lparr>bd_chain = [], bd_lastHash = Sha256Hex (lastHash (stateOf d b)), bd_lastFlush = now e\<rparr>"
    using assms by (simp add: flushBatch_commit commit_def)
  have 5: "\<forall>u g f. fst (flushBatch (e\<lparr>ipfs_url := u, ipfs_gateway := g, ipfs_fetch := f\<rparr>) d b) =
                    fst (flushBatch e d b)"
    by (simp add: flushBatch_commit commit_def)
  show ?thesis
    by (rule conjI, rule 1, rule conjI, rule 2, rule conjI, rule 3, rule conjI, rule 4, rule 5)
qed

theorem failed_flush_clears_chain_witness:
  "postChain (stateOf ''t1'' oneLink) \<noteq> [] \<and>
   uploadToIPFS (offlineEnv 5) (SummaryPayload (summaryOf (offlineEnv 5) (stateOf ''t1'' oneLink))) = None \<and>
   postChain (stateOf ''t1'' (fst (flushBatch (offlineEnv 5) ''t1'' oneLink))) = []"
proof -
  have a: "postChain (stateOf ''t1'' oneLink) \<noteq> []"
    by (simp add: oneLink_def batcher_eval offlineEnv_def)
  have b: "uploadToIPFS (offlineEnv 5)
             (SummaryPayload (summaryOf (offlineEnv 5) (stateOf ''t1'' oneLink))) = None"
    by (simp add: uploadToIPFS_def offlineEnv_def)
  from failed_flush_clears_chain[OF a b] a b show ?thesis by simp
qed

text \<open>
  One entry in the chain, the content store down: the flush reports no anchored summary
  and the chain is not what it was.
\<close>

theorem failed_flush_counterexample:
  "snd (flushBatch (offlineEnv 5) ''t1'' oneLink) = None \<and>
   postChain (stateOf ''t1'' (fst (flushBatch (offlineEnv 5) ''t1'' oneLink))) \<noteq>
     postChain (stateOf ''t1'' oneLink)"
  by (simp add: oneLink_def batcher_eval offlineEnv_def)

lemma appendAll_hashes:
  "l \<in> set (fst (appendAll e d ps b)) \<Longrightarrow> \<exists>p h. hash l = Sha256Post p h"
proof (induction ps arbitrary: b)
  case Nil
  then show ?case by simp
next
  case (Cons q qs)
  then show ?case
    by (auto simp: split_beta fst_addPostToBatch linkPost_entry_fields hashPost_def)
qed

text \<open>
  Claim C3. From an empty chain and with a positive threshold, appending exactly
  \<open>batchThreshold\<close> posts ends in a flush: no shorter run flushes (after \<open>k\<close> posts the chain
  has \<open>k\<close> entries), and after the last post the chain is empty and \<open>lastHash\<close> is the
  digest of the \<open>lastHash\<close> the last entry had set, which is the hash of no entry of the
  batch and of no post at all.
\<close>

theorem threshold_flush:
  assumes empty: "postChain (stateOf d b) = []"
    and pos: "0 < batchThreshold e d"
    and len: "length ps = batchThreshold e d"
  shows "postChain (stateOf d (snd (appendAll e d ps b))) = [] \<and>
         length (fst (appendAll e d ps b)) = batchThreshold e d \<and>
         lastHash (stateOf d (snd (linkPost e (last ps) None d (snd (appendAll e d (butlast ps) b)))))
           = hash (last (fst (appendAll e d ps b))) \<and>
         lastHash (stateOf d (snd (appendAll e d ps b))) =
           Sha256Hex (hash (last (fst (appendAll e d ps b)))) \<and>
         (\<forall>l \<in> set (fst (appendAll e d ps b)).
            hash l \<noteq> lastHash (stateOf d (snd (appendAll e d ps b)))) \<and>
         (\<forall>p h. lastHash (stateOf d (snd (appendAll e d ps b))) \<noteq> Sha256Post p h) \<and>
         (\<forall>k < batchThreshold e d.
            length (postChain (stateOf d (snd (appendAll e d (take k ps) b)))) = k)"
proof -
  from pos len have ne: "ps \<noteq> []" by auto
  then have split: "ps = butlast ps @ [last ps]" by simp
  let ?qs = "butlast ps" and ?p = "last ps"
  let ?b1 = "snd (appendAll e d ?qs b)"
  have below: "length (postChain (stateOf d b)) + length ?qs < batchThreshold e d"
    using empty len ne pos by simp
  note pre = appendAll_below[OF below]
  have chain1: "length (postChain (stateOf d ?b1)) = length ?qs"
    using pre empty by simp
  have whole: "appendAll e d ps b =
      (fst (appendAll e d ?qs b) @ [fst (addPostToBatch e ?p None d ?b1)],
       snd (addPostToBatch e ?p None d ?b1))"
    using appendAll_snoc[of e d ?qs ?p b] split by simp
  have full: "Suc (length (postChain (stateOf d ?b1))) \<ge> batchThreshold e d"
    using chain1 len ne by simp
  have st: "stateOf d (snd (appendAll e d ps b)) =
      (stateOf d ?b1)\<lparr>postChain := [], lastHash := Sha256Hex (hash (fst (linkPost e ?p None d ?b1)))\<rparr>"
    using full by (simp add: whole stateOf_addPostToBatch)
  have lastl: "last (fst (appendAll e d ps b)) = fst (linkPost e ?p None d ?b1)"
    by (simp add: whole fst_addPostToBatch)
  have hashes: "\<forall>l \<in> set (fst (appendAll e d ps b)). hash l \<noteq> Sha256Hex (hash (fst (linkPost e ?p None d ?b1)))"
  proof
    fix l assume "l \<in> set (fst (appendAll e d ps b))"
    then consider "l \<in> set (fst (appendAll e d ?qs b))" | "l = fst (linkPost e ?p None d ?b1)"
      by (auto simp: whole fst_addPostToBatch)
    then show "hash l \<noteq> Sha256Hex (hash (fst (linkPost e ?p None d ?b1)))"
    proof cases
      case 1
      then show ?thesis using appendAll_hashes by fastforce
    next
      case 2
      then show ?thesis by (simp add: linkPost_entry_fields hashPost_def)
    qed
  qed
  have prefix: "\<forall>k < batchThreshold e d.
            length (postChain (stateOf d (snd (appendAll e d (take k ps) b)))) = k"
  proof (intro allI impI)
    fix k assume k: "k < batchThreshold e d"
    then have "length (postChain (stateOf d b)) + length (take k ps) < batchThreshold e d"
      using empty len by simp
    from appendAll_below[OF this] show
      "length (postChain (stateOf d (snd (appendAll e d (take k ps) b)))) = k"
      using empty k len by simp
  qed
  have c1: "postChain (stateOf d (snd (appendAll e d ps b))) = []"
    using st by simp
  have c2: "length (fst (appendAll e d ps b)) = batchThreshold e d"
    using pre len ne pos by (simp add: whole)
  have c3: "lastHash (stateOf d (snd (linkPost e ?p None d ?b1))) =
              hash (last (fst (appendAll e d ps b)))"
    by (simp add: lastl stateOf_linkPost)
  have c4: "lastHash (stateOf d (snd (appendAll e d ps b))) =
              Sha256Hex (hash (last (fst (appendAll e d ps b))))"
    using st by (simp add: lastl)
  have c5: "\<forall>l \<in> set (fst (appendAll e d ps b)).
              hash l \<noteq> lastHash (stateOf d (snd (appendAll e d ps b)))"
    using hashes by (simp only: c4 lastl) 
  have c6: "\<forall>p h. lastHash (stateOf d (snd (appendAll e d ps b))) \<noteq> Sha256Post p h"
    by (simp only: c4) simp
  from c1 c2 c3 c4 c5 c6 prefix show ?thesis by blast
qed

theorem threshold_flush_witness:
  "postChain (stateOf ''t1'' newBatcher) = [] \<and>
   0 < batchThreshold (offlineEnv 2) ''t1'' \<and>
   length [examplePost 1, examplePost 2] = batchThreshold (offlineEnv 2) ''t1'' \<and>
   postChain (stateOf ''t1'' (snd (appendAll (offlineEnv 2) ''t1'' [examplePost 1, examplePost 2] newBatcher))) = [] \<and>
   lastHash (stateOf ''t1'' (snd (appendAll (offlineEnv 2) ''t1'' [examplePost 1, examplePost 2] newBatcher))) =
     Sha256Hex (Sha256Post (examplePost 2) (Sha256Post (examplePost 1) Genesis))"
proof -
  have a: "postChain (stateOf ''t1'' newBatcher) = []"
    by (simp add: batcher_eval)
  have b: "0 < batchThreshold (offlineEnv 2) ''t1''"
    by (simp add: offlineEnv_def)
  have c: "length [examplePost 1, examplePost 2] = batchThreshold (offlineEnv 2) ''t1''"
    by (simp add: offlineEnv_def)
  have d: "hash (last (fst (appendAll (offlineEnv 2) ''t1'' [examplePost 1, examplePost 2] newBatcher)))
             = Sha256Post (examplePost 2) (Sha256Post (examplePost 1) Genesis)"
    by (simp add: batcher_eval offlineEnv_def split_beta)
  from threshold_flush[OF a b c] a b c d show ?thesis by simp
qed

section \<open>Properties of the ledger writer, the readers and the channel registry\<close>

lemma beginPost_denied:
  "checkPostingPermission req = Denied reason \<Longrightarrow>
     beginPost e req srv =
       (case validatePost req srv of Some r \<Rightarrow> (Inl r, srv) | None \<Rightarrow> (Inl (403, reason), srv))"
  by (simp add: beginPost_def split: option.splits)

lemma submitPost_denied:
  "checkPostingPermission req = Denied reason \<Longrightarrow>
     submitPost e req srv =
       (case validatePost req srv of
          Some (code, m) \<Rightarrow> (Status code m, srv)
        | None \<Rightarrow> (Status 403 reason, srv))"
  by (simp add: submitPost_def beginPost_denied split: option.splits)

lemma submitComment_denied:
  "checkPostingPermission req = Denied reason \<Longrightarrow>
     submitComment e req srv =
       (if textMissing (b_text req) then (Status 400 ''Text is required'', srv)
        else (Status 403 reason, srv))"
  by (simp add: submitComment_def)

lemma below_poster_denied:
  "episteryClient req = Some a \<Longrightarrow> checkAgentAccess (domainAcl req) a (r_domain req) = Inr lv \<Longrightarrow>
   lv < 2 \<Longrightarrow>
   checkPostingPermission req =
     Denied ''You need editor privileges to post. Request access in the sidebar.''"
  by (simp add: checkPostingPermission_def)

text \<open>
  Claim C4, as amended. For a caller whose access level is below 2 (poster), a post
  request changes nothing on the server: no post file, no index entry, the same
  \<open>nextId\<close>, no chain entry, no broadcast. The response is the permission error (status
  403) when the request passes the checks that come before the permission check, and
  otherwise the error of the first of those checks.
\<close>

theorem fail_closed_writes:
  assumes "episteryClient req = Some a"
    and "checkAgentAccess (domainAcl req) a (r_domain req) = Inr lv"
    and "lv < 2"
  shows "snd (submitPost e req srv) = srv \<and>
         (validatePost req srv = None \<longrightarrow>
            fst (submitPost e req srv) =
              Status 403 ''You need editor privileges to post. Request access in the sidebar.'') \<and>
         (\<forall>code m. validatePost req srv = Some (code, m) \<longrightarrow>
            fst (submitPost e req srv) = Status code m)"
  using submitPost_denied[OF below_poster_denied[OF assms], of e srv]
  by (auto split: option.splits)

theorem fail_closed_writes_witness:
  "episteryClient (exampleRequest (Inr 1) (Some ''hello'')) = Some ''0xb0b'' \<and>
   checkAgentAccess (domainAcl (exampleRequest (Inr 1) (Some ''hello''))) ''0xb0b''
     (r_domain (exampleRequest (Inr 1) (Some ''hello''))) = Inr 1 \<and> (1::nat) < 2 \<and>
   validatePost (exampleRequest (Inr 1) (Some ''hello'')) newServer = None \<and>
   submitPost (offlineEnv 5) (exampleRequest (Inr 1) (Some ''hello'')) newServer =
     (Status 403 ''You need editor privileges to post. Request access in the sidebar.'', newServer)"
proof -
  let ?req = "exampleRequest (Inr 1) (Some ''hello'')"
  have a: "episteryClient ?req = Some ''0xb0b''" by (simp add: exampleRequest_def)
  have b: "checkAgentAccess (domainAcl ?req) ''0xb0b'' (r_domain ?req) = Inr 1"
    by (simp add: exampleRequest_def exampleAcl_def)
  have c: "(1::nat) < 2" by simp
  have v: "validatePost ?req newServer = None"
    by (simp add: validatePost_def exampleRequest_def textMissing_def trim_def isWhiteSpace_def
        orNull_def)
  from fail_closed_writes[OF a b c, of "offlineEnv 5" newServer] a b v show ?thesis
    by (simp add: prod_eq_iff)
qed

text \<open>
  A reader (level 1) who sends an empty text is answered with the validation error
  (status 400), not with the permission error.
\<close>

theorem reader_empty_text_counterexample:
  "checkAgentAccess (domainAcl (exampleRequest (Inr 1) (Some ''''))) ''0xb0b'' ''t1'' = Inr 1 \<and>
   fst (submitPost (offlineEnv 5) (exampleRequest (Inr 1) (Some '''')) newServer) =
     Status 400 ''Text is required''"
  by (simp add: submitPost_def beginPost_def validatePost_def textMissing_def exampleRequest_def
      exampleAcl_def)

lemma denied_oracle_throws:
  "episteryClient req = Some a \<Longrightarrow> checkAgentAccess (domainAcl req) a (r_domain req) = Inl x \<Longrightarrow>
   checkPostingPermission req = Denied ''Permission check failed''"
  by (simp add: checkPostingPermission_def)

lemma listPosts_oracle_throws:
  assumes "episteryClient req = Some a" and "a \<noteq> []"
    and "checkAgentAccess (domainAcl req) a (r_domain req) = Inl x"
  shows "\<exists>m. fst (listPosts req srv) = Status 500 m"
proof -
  have acc: "\<exists>y. getAccessibleChannelNames req srv' = Inl y" for srv'
    using assms by (simp add: getAccessibleChannelNames_def orNull_def split: sum.splits)
  show ?thesis
  proof (cases "readData (r_domain req) srv")
    case (Pair r srv1)
    show ?thesis
    proof (cases r)
      case (Inl err)
      with Pair show ?thesis by (cases err) (simp add: listPosts_def)
    next
      case (Inr data)
      from acc[of srv1] obtain y where y: "getAccessibleChannelNames req srv1 = Inl y" by blast
      with Pair Inr show ?thesis by (cases y) (simp add: listPosts_def)
    qed
  qed
qed

text \<open>
  Claim C5, as amended. When the access check throws for an authenticated caller, posts
  and comments are denied without any change of the server (status 403 with
  \<^verbatim>\<open>'Permission check failed'\<close>, behind the input checks that come first), and the
  listing of posts does not succeed either: it ends with status 500.
\<close>

theorem oracle_unreachable:
  assumes "episteryClient req = Some a" and "a \<noteq> []"
    and "checkAgentAccess (domainAcl req) a (r_domain req) = Inl x"
  shows "snd (submitPost e req srv) = srv \<and>
         (validatePost req srv = None \<longrightarrow>
            fst (submitPost e req srv) = Status 403 ''Permission check failed'') \<and>
         (\<forall>code m. validatePost req srv = Some (code, m) \<longrightarrow>
            fst (submitPost e req srv) = Status code m) \<and>
         snd (submitComment e req srv) = srv \<and>
         fst (submitComment e req srv) =
           (if textMissing (b_text req) then Status 400 ''Text is required''
            else Status 403 ''Permission check failed'') \<and>
         (\<exists>m. fst (listPosts req srv) = Status 500 m)"
proof -
  note d = denied_oracle_throws[OF assms(1) assms(3)]
  have 1: "snd (submitPost e req srv) = srv \<and>
         (validatePost req srv = None \<longrightarrow>
            fst (submitPost e req srv) = Status 403 ''Permission check failed'') \<and>
         (\<forall>code m. validatePost req srv = Some (code, m) \<longrightarrow>
            fst (submitPost e req srv) = Status code m)"
    using submitPost_denied[OF d, of e srv] by (auto split: option.splits)
  have 2: "snd (submitComment e req srv) = srv \<and>
         fst (submitComment e req srv) =
           (if textMissing (b_text req) then Status 400 ''Text is required''
            else Status 403 ''Permission check failed'')"
    using submitComment_denied[OF d, of e srv] by simp
  from 1 2 listPosts_oracle_throws[OF assms, of srv] show ?thesis by blast
qed

theorem oracle_unreachable_witness:
  "episteryClient (exampleRequest (Inl (Exception ''ECONNREFUSED'')) (Some ''hello'')) = Some ''0xb0b'' \<and>
   ''0xb0b'' \<noteq> [] \<and>
   checkAgentAccess (domainAcl (exampleRequest (Inl (Exception ''ECONNREFUSED'')) (Some ''hello'')))
     ''0xb0b'' (r_domain (exampleRequest (Inl (Exception ''ECONNREFUSED'')) (Some ''hello'')))
     = Inl (Exception ''ECONNREFUSED'') \<and>
   validatePost (exampleRequest (Inl (Exception ''ECONNREFUSED'')) (Some ''hello'')) newServer = None \<and>
   submitPost (offlineEnv 5) (exampleRequest (Inl (Exception ''ECONNREFUSED'')) (Some ''hello'')) newServer
     = (Status 403 ''Permission check failed'', newServer)"
proof -
  let ?req = "exampleRequest (Inl (Exception ''ECONNREFUSED'')) (Some ''hello'')"
  have a: "episteryClient ?req = Some ''0xb0b''" by (simp add: exampleRequest_def)
  have b: "''0xb0b'' \<noteq> []" by simp
  have c: "checkAgentAccess (domainAcl ?req) ''0xb0b'' (r_domain ?req) = Inl (Exception ''ECONNREFUSED'')"
    by (simp add: exampleRequest_def exampleAcl_def)
  have v: "validatePost ?req newServer = None"
    by (simp add: validatePost_def exampleRequest_def textMissing_def trim_def isWhiteSpace_def
        orNull_def)
  from oracle_unreachable[OF a b c, of "offlineEnv 5" newServer] a c v show ?thesis
    by (simp add: prod_eq_iff)
qed

text \<open>
  The access check throws and the caller lists the posts of a new board: the answer is
  status 500 with the oracle's error, not a list of posts.
\<close>

theorem oracle_unreachable_read_counterexample:
  "checkAgentAccess (domainAcl (exampleRequest (Inl (Exception ''ECONNREFUSED'')) None)) ''0xb0b'' ''t1''
     = Inl (Exception ''ECONNREFUSED'') \<and>
   fst (listPosts (exampleRequest (Inl (Exception ''ECONNREFUSED'')) None) newServer) =
     Status 500 ''ECONNREFUSED''"
  by (simp add: listPosts_def readData_def migrateLegacyData_def getAccessibleChannelNames_def
      newServer_def exampleRequest_def exampleAcl_def orNull_def)


lemma readData_others:
  "channels (snd (readData d srv)) = channels srv"
  "broadcasts (snd (readData d srv)) = broadcasts srv"
  "legacyFiles (snd (readData d srv)) = legacyFiles srv"
  by (simp_all add: readData_def migrateLegacyData_def updStorage_def Let_def
           split: option.splits stored.splits)

lemma submitPost_accepted:
  assumes "validatePost req srv = None"
    and "checkPostingPermission req = Allowed a n lv"
    and "fst (readData (r_domain req) srv) = Inr data"
  shows "submitPost e req srv =
           (Json (newPost e req a n data),
            enqueue e (r_domain req) (newPost e req a n data)
              (finishPost (r_domain req) (newPost e req a n data)
                 (withPost (newPost e req a n data) data)
                 (writePost (r_domain req) (newPost e req a n data)
                    (snd (readData (r_domain req) srv)))))"
  using assms
  by (cases "readData (r_domain req) srv") (simp add: submitPost_def beginPost_def Let_def)


lemma newPost_ipfs [simp]:
  "newPost (e\<lparr>ipfs_url := u, ipfs_gateway := g, ipfs_fetch := f\<rparr>) req a n data = newPost e req a n data"
  by (simp add: newPost_def)



lemma createChannel_error_unchanged:
  "fst (createChannel req srv) = Status code m \<Longrightarrow> snd (createChannel req srv) = srv"
  by (auto simp: createChannel_def Let_def
           split: permission.splits option.splits if_splits sum.splits error.splits)

lemma findChannel_parsed:
  "parseChannels cs = Inr chs \<Longrightarrow> findChannel n cs = Inr (find (\<lambda>c. ch_name c = n) chs)"
proof (induction cs arbitrary: chs rule: parseChannels.induct)
  case 1
  then show ?case by simp
next
  case (2 c cs)
  then show ?case by (auto split: sum.splits)
next
  case (3 c cs)
  then show ?case by (auto split: sum.splits)
next
  case (4 x cs)
  then show ?case by simp
qed

lemma find_name_in:
  "n \<in> ch_name ` set chs \<Longrightarrow> \<exists>c. find (\<lambda>c. ch_name c = n) chs = Some c"
  by (induction chs) auto

lemma findChannel_not_absent:
  "n \<in> ch_name ` set chs \<Longrightarrow> parseChannels cs = Inr chs \<Longrightarrow> \<exists>c. findChannel n cs = Inr (Some c)"
  using findChannel_parsed find_name_in by fastforce

text \<open>
  Claim C8, as amended. For an admin, creating a channel is refused with status 400 when
  the name is missing or does not match \<^verbatim>\<open>[a-z0-9-]+\<close>, when it is the reserved name
  \<^verbatim>\<open>general\<close>, and when a configured channel already has the name; and every refusal
  leaves the server, so the channel set, as it was.
\<close>

theorem channel_creation_rules:
  assumes admin: "checkAdminPermission req = Allowed a n lv"
  shows "(orNull (b_name req) = None \<or> (\<exists>name. b_name req = Some name \<and> \<not> validChannelName name) \<longrightarrow>
            createChannel req srv =
              (Status 400 ''Invalid channel name. Use lowercase letters, numbers, and hyphens only.'', srv)) \<and>
         (b_name req = Some ''general'' \<longrightarrow>
            createChannel req srv =
              (Status 400 ''Channel name \"general\" is reserved for uncategorized posts.'', srv)) \<and>
         (\<forall>name chs. b_name req = Some name \<and> validChannelName name \<and> name \<noteq> ''general'' \<and>
                      parseChannels (channels srv (r_domain req)) = Inr chs \<and>
                      name \<in> ch_name ` set chs \<longrightarrow>
            createChannel req srv = (Status 400 ''Channel already exists'', srv)) \<and>
         (\<forall>code m. fst (createChannel req srv) = Status code m \<longrightarrow> snd (createChannel req srv) = srv)"
proof -
  have general_ok: "validChannelName ''general''"
    by (simp add: validChannelName_def isChannelChar_def)
  have 1: "orNull (b_name req) = None \<or> (\<exists>name. b_name req = Some name \<and> \<not> validChannelName name) \<longrightarrow>
            createChannel req srv =
              (Status 400 ''Invalid channel name. Use lowercase letters, numbers, and hyphens only.'', srv)"
    using admin
    by (auto simp: createChannel_def orNull_def validChannelName_def split: option.splits)
  have 2: "b_name req = Some ''general'' \<longrightarrow>
            createChannel req srv =
              (Status 400 ''Channel name \"general\" is reserved for uncategorized posts.'', srv)"
    using admin general_ok by (simp add: createChannel_def orNull_def)
  have 3: "\<forall>name chs. b_name req = Some name \<and> validChannelName name \<and> name \<noteq> ''general'' \<and>
                      parseChannels (channels srv (r_domain req)) = Inr chs \<and>
                      name \<in> ch_name ` set chs \<longrightarrow>
            createChannel req srv = (Status 400 ''Channel already exists'', srv)"
  proof (intro allI impI)
    fix name chs
    assume h: "b_name req = Some name \<and> validChannelName name \<and> name \<noteq> ''general'' \<and>
               parseChannels (channels srv (r_domain req)) = Inr chs \<and> name \<in> ch_name ` set chs"
    then obtain c where "findChannel name (channels srv (r_domain req)) = Inr (Some c)"
      using findChannel_not_absent by blast
    with h admin show "createChannel req srv = (Status 400 ''Channel already exists'', srv)"
      by (auto simp: createChannel_def orNull_def validChannelName_def)
  qed
  have 4: "\<forall>code m. fst (createChannel req srv) = Status code m \<longrightarrow> snd (createChannel req srv) = srv"
    using createChannel_error_unchanged by blast
  show ?thesis
    by (intro conjI) (rule 1, rule 2, rule 3, rule 4)
qed

theorem channel_creation_rules_witness:
  "checkAdminPermission (adminRequest (Some ''general'')) = Allowed ''0xb0b'' None 3 \<and>
   b_name (adminRequest (Some ''general'')) = Some ''general'' \<and>
   createChannel (adminRequest (Some ''general'')) newServer =
     (Status 400 ''Channel name \"general\" is reserved for uncategorized posts.'', newServer)"
proof -
  have a: "checkAdminPermission (adminRequest (Some ''general'')) = Allowed ''0xb0b'' None 3"
    by (simp add: checkAdminPermission_def adminRequest_def exampleRequest_def exampleAcl_def)
  have b: "b_name (adminRequest (Some ''general'')) = Some ''general''"
    by (simp add: adminRequest_def)
  from channel_creation_rules[OF a, of newServer] a b show ?thesis by simp
qed

text \<open>
  The name \<^verbatim>\<open>default\<close> is not reserved: an admin creates a channel of that name.
\<close>

theorem channel_default_counterexample:
  "checkAdminPermission (adminRequest (Some ''default'')) = Allowed ''0xb0b'' None 3 \<and>
   fst (createChannel (adminRequest (Some ''default'')) newServer) =
     Json \<lparr>ch_name = ''default'', ch_list = None\<rparr> \<and>
   channels (snd (createChannel (adminRequest (Some ''default'')) newServer)) ''t1'' =
     [ChanObj \<lparr>ch_name = ''default'', ch_list = None\<rparr>]"
  by (simp add: createChannel_def checkAdminPermission_def adminRequest_def exampleRequest_def
      exampleAcl_def orNull_def validChannelName_def isChannelChar_def newServer_def Let_def)

section \<open>Properties of the storage backend\<close>

lemma storage_updStorage [simp]:
  "storage (updStorage d f srv) d' = (if d' = d then f (storage srv d) else storage srv d')"
  "legacyFiles (updStorage d f srv) = legacyFiles srv"
  "channels (updStorage d f srv) = channels srv"
  "chains (updStorage d f srv) = chains srv"
  "broadcasts (updStorage d f srv) = broadcasts srv"
  by (simp_all add: updStorage_def)

lemma broadcast_fields [simp]:
  "storage (broadcast m d srv) = storage srv"
  "legacyFiles (broadcast m d srv) = legacyFiles srv"
  "channels (broadcast m d srv) = channels srv"
  "chains (broadcast m d srv) = chains srv"
  by (simp_all add: broadcast_def)

lemma enqueue_fields [simp]:
  "storage (enqueue e d p srv) = storage srv"
  "legacyFiles (enqueue e d p srv) = legacyFiles srv"
  "channels (enqueue e d p srv) = channels srv"
  "broadcasts (enqueue e d p srv) = broadcasts srv"
  by (simp_all add: enqueue_def)










lemma legacyFiles_migrate [simp]: "legacyFiles (snd (migrateLegacyData d srv)) = legacyFiles srv"
  by (auto simp: migrateLegacyData_def split: option.splits stored.splits)


lemma readData_indexed:
  "indexFile (storage srv d) = Some (Parsed idx) \<Longrightarrow>
     readData d srv =
       (Inr \<lparr>d_posts = List.map_filter (loadPost (storage srv d)) (i_posts idx),
             d_nextId = (if i_nextId idx \<noteq> 0 then i_nextId idx
                         else fold max (map p_id (List.map_filter (loadPost (storage srv d)) (i_posts idx))) 0 + 1)\<rparr>,
        srv)"
  by (simp add: readData_def Let_def)











lemma filesOk_writeIndex [simp]: "filesOk (writeIndexFile data st) = filesOk st"
  by (simp add: filesOk_def writeIndexFile_def)










lemma ids_addCommentFirst [simp]: "map p_id (addCommentFirst i c ps) = map p_id ps"
  by (induction ps) auto

lemma ids_editFirst [simp]: "map p_id (editFirst i t at ps) = map p_id ps"
  by (induction ps) auto




lemma beginPost_shape:
  "(\<exists>r. beginPost e req srv = (Inl r, srv)) \<or>
   (\<exists>r. beginPost e req srv = (Inl r, snd (readData (r_domain req) srv))) \<or>
   (\<exists>a n data. fst (readData (r_domain req) srv) = Inr data \<and>
      beginPost e req srv =
        (Inr (newPost e req a n data, withPost (newPost e req a n data) data),
         snd (readData (r_domain req) srv)))"
proof (cases "validatePost req srv")
  case (Some r)
  then show ?thesis by (simp add: beginPost_def)
next
  case None
  show ?thesis
  proof (cases "checkPostingPermission req")
    case (Denied reason)
    with None show ?thesis by (simp add: beginPost_def)
  next
    case (Allowed a n lv)
    obtain r srv1 where rd: "readData (r_domain req) srv = (r, srv1)" by (cases "readData (r_domain req) srv")
    show ?thesis
    proof (cases r)
      case (Inl err)
      with None Allowed rd show ?thesis by (cases err) (simp add: beginPost_def)
    next
      case (Inr data)
      with None Allowed rd have "fst (readData (r_domain req) srv) = Inr data \<and>
          beginPost e req srv =
            (Inr (newPost e req a n data, withPost (newPost e req a n data) data),
             snd (readData (r_domain req) srv))"
        by (simp add: beginPost_def Let_def)
      then show ?thesis by blast
    qed
  qed
qed

lemma newPost_id [simp]: "p_id (newPost e req a n data) = d_nextId data"
  by (simp add: newPost_def)














lemma validatePost_channels:
  "channels srv' = channels srv \<Longrightarrow> validatePost req srv' = validatePost req srv"
  by (simp add: validatePost_def split: option.splits)

lemma channels_submitPost: "channels (snd (submitPost e req srv)) = channels srv"
  using beginPost_shape[of e req srv]
  by (auto simp: submitPost_def finishPost_def writeData_def writePost_def readData_others)

lemma readData_after_accept:
  assumes "validatePost req srv = None"
    and "checkPostingPermission req = Allowed a n lv"
    and "fst (readData (r_domain req) srv) = Inr data"
  shows "indexFile (storage (snd (submitPost e req srv)) (r_domain req)) =
           Some (Parsed \<lparr>i_nextId = Suc (d_nextId data),
                         i_posts = metaOf (newPost e req a n data) # map metaOf (d_posts data)\<rparr>)"
  by (simp add: submitPost_accepted[OF assms] finishPost_def writeData_def writePost_def
      writeIndexFile_def withPost_def)

lemma nextId_after_accept:
  assumes "validatePost req srv = None"
    and "checkPostingPermission req = Allowed a n lv"
    and "fst (readData (r_domain req) srv) = Inr data"
  shows "\<exists>data'. fst (readData (r_domain req) (snd (submitPost e req srv))) = Inr data' \<and>
            d_nextId data' = Suc (d_nextId data)"
  by (simp add: readData_indexed[OF readData_after_accept[OF assms]])

lemma upt_head: "[n ..< n + Suc k] = n # [Suc n ..< Suc n + k]"
  by (subst upt_rec) (simp del: upt_Suc)

lemma submitAll_ids:
  assumes "fst (readData d srv) = Inr data"
    and "\<forall>req \<in> set reqs. r_domain req = d \<and> validatePost req srv = None \<and>
            (\<exists>a n lv. checkPostingPermission req = Allowed a n lv)"
  shows "map postIdOf (fst (submitAll e reqs srv)) =
           map Some [d_nextId data ..< d_nextId data + length reqs]"
  using assms
proof (induction reqs arbitrary: srv data)
  case Nil
  then show ?case by simp
next
  case (Cons req reqs)
  from Cons.prems obtain a n lv where
    dom: "r_domain req = d" and v: "validatePost req srv = None"
    and p: "checkPostingPermission req = Allowed a n lv" by auto
  from Cons.prems dom have rd: "fst (readData (r_domain req) srv) = Inr data" by simp
  let ?srv1 = "snd (submitPost e req srv)"
  from nextId_after_accept[OF v p rd, of e] dom obtain data' where
    rd': "fst (readData d ?srv1) = Inr data'" and nx: "d_nextId data' = Suc (d_nextId data)"
    by auto
  have rest: "\<forall>r \<in> set reqs. r_domain r = d \<and> validatePost r ?srv1 = None \<and>
            (\<exists>a n lv. checkPostingPermission r = Allowed a n lv)"
    using Cons.prems(2) by (simp add: validatePost_channels[OF channels_submitPost])
  have resp: "fst (submitPost e req srv) = Json (newPost e req a n data)"
    by (simp add: submitPost_accepted[OF v p rd])
  from Cons.IH[OF rd' rest]
  have "map postIdOf (fst (submitAll e reqs ?srv1)) =
          map Some [Suc (d_nextId data) ..< Suc (d_nextId data) + length reqs]"
    by (simp add: nx)
  moreover have "[d_nextId data ..< d_nextId data + length (req # reqs)] =
                   d_nextId data # [Suc (d_nextId data) ..< Suc (d_nextId data) + length reqs]"
    using upt_head[of "d_nextId data" "length reqs"] by simp
  ultimately show ?case
    by (simp only: submitAll.simps split_beta Let_def fst_conv list.map resp postIdOf.simps
        newPost_id)
qed

lemma readData_empty:
  "indexFile (storage srv d) = None \<Longrightarrow> legacyFiles srv d = None \<Longrightarrow>
     readData d srv = (Inr \<lparr>d_posts = [], d_nextId = 1\<rparr>, srv)"
  by (simp add: readData_def migrateLegacyData_def)

lemma three_steps:
  assumes "inflight s i = None" and "answers s i = None"
  shows "stepSys e reqs (Finish i) (stepSys e reqs (Store i) (stepSys e reqs (Begin i) s)) =
           s\<lparr>board := snd (submitPost e (reqs i) (board s)),
             answers := (answers s)(i \<mapsto> fst (submitPost e (reqs i) (board s)))\<rparr>"
proof -
  obtain r srv1 where b: "beginPost e (reqs i) (board s) = (r, srv1)"
    by (cases "beginPost e (reqs i) (board s)")
  have idem: "(inflight s)(i := None) = inflight s"
    using assms(1) by (rule_tac ext) simp
  show ?thesis
  proof (cases r)
    case (Inl x)
    with assms b show ?thesis by (cases x) (simp add: submitPost_def)
  next
    case (Inr y)
    with assms b idem show ?thesis by (cases y) (simp add: submitPost_def)
  qed
qed

text \<open>
  Claim C9, as amended. On a domain with no index and no legacy monolith, \<open>N\<close> valid post
  requests of permitted callers, handled one after the other, are answered with the ids
  \<open>1, \<dots>, N\<close> in this order. Handling the three stretches of a request with nothing in
  between is \<open>submitPost\<close>.
\<close>

theorem sequential_ids:
  assumes "indexFile (storage srv0 d) = None" and "legacyFiles srv0 d = None"
    and "\<forall>req \<in> set reqs. r_domain req = d \<and> validatePost req srv0 = None \<and>
            (\<exists>a n lv. checkPostingPermission req = Allowed a n lv)"
  shows "map postIdOf (fst (submitAll e reqs srv0)) = map Some [1 ..< Suc (length reqs)] \<and>
         (\<forall>s i rq. inflight s i = None \<and> answers s i = None \<longrightarrow>
            stepSys e rq (Finish i) (stepSys e rq (Store i) (stepSys e rq (Begin i) s)) =
              s\<lparr>board := snd (submitPost e (rq i) (board s)),
                answers := (answers s)(i \<mapsto> fst (submitPost e (rq i) (board s)))\<rparr>)"
proof -
  have "fst (readData d srv0) = Inr \<lparr>d_posts = [], d_nextId = 1\<rparr>"
    using assms(1,2) by (simp add: readData_empty)
  from submitAll_ids[OF this assms(3), of e]
  have "map postIdOf (fst (submitAll e reqs srv0)) = map Some [1 ..< Suc (length reqs)]"
    by simp
  then show ?thesis using three_steps by blast
qed

lemmas request_eval = posterRequest_def exampleRequest_def exampleAcl_def exampleSettings_def
  validatePost_def textMissing_def trim_def isWhiteSpace_def orNull_def checkPostingPermission_def


lemma posterRequest_ok:
  "r_domain posterRequest = ''t1''"
  "validatePost posterRequest srv = None"
  "checkPostingPermission posterRequest = Allowed ''0xb0b'' None 2"
  by (simp_all add: request_eval)

theorem sequential_ids_witness:
  "indexFile (storage newServer ''t1'') = None \<and> legacyFiles newServer ''t1'' = None \<and>
   r_domain posterRequest = ''t1'' \<and> validatePost posterRequest newServer = None \<and>
   checkPostingPermission posterRequest = Allowed ''0xb0b'' None 2 \<and>
   map postIdOf (fst (submitAll (offlineEnv 5) [posterRequest, posterRequest] newServer)) =
     [Some 1, Some 2]"
proof -
  have a: "indexFile (storage newServer ''t1'') = None" by (simp add: newServer_def)
  have b: "legacyFiles newServer ''t1'' = None" by (simp add: newServer_def)
  have c: "\<forall>req \<in> set [posterRequest, posterRequest].
       r_domain req = ''t1'' \<and> validatePost req newServer = None \<and>
       (\<exists>a n lv. checkPostingPermission req = Allowed a n lv)"
    by (simp add: posterRequest_ok)
  have "[1 ..< Suc (length [posterRequest, posterRequest])] = [1, 2]"
    by (simp add: upt_rec)
  with sequential_ids[OF a b c, of "offlineEnv 5"] a b show ?thesis
    by (simp add: posterRequest_ok)
qed

lemma beginPost_fresh:
  "beginPost e posterRequest newServer =
     (Inr (newPost e posterRequest ''0xb0b'' None \<lparr>d_posts = [], d_nextId = 1\<rparr>,
           withPost (newPost e posterRequest ''0xb0b'' None \<lparr>d_posts = [], d_nextId = 1\<rparr>)
             \<lparr>d_posts = [], d_nextId = 1\<rparr>),
      newServer)"
proof -
  have "readData ''t1'' newServer = (Inr \<lparr>d_posts = [], d_nextId = 1\<rparr>, newServer)"
    by (rule readData_empty) (simp_all add: newServer_def)
  then show ?thesis
    by (simp add: beginPost_def posterRequest_ok Let_def)
qed

text \<open>
  Nothing serializes the requests of a domain: when two requests have both read the
  index before either writes it, both posts get the id 1.
\<close>

theorem concurrent_ids_counterexample:
  "answeredId (runSchedule (offlineEnv 5) sameRequests overlapping newServer) 0 = Some 1 \<and>
   answeredId (runSchedule (offlineEnv 5) sameRequests overlapping newServer) 1 = Some 1"
  by (simp add: answeredId_def runSchedule_def overlapping_def sameRequests_def beginPost_fresh)



end
